theory Spec2Isabelle
  imports Complex_Main "HOL-Library.Monad_Syntax"
begin

section \<open>Numeric primitives\<close>

text \<open>
  The notebook \<^verbatim>\<open>ecef_lla_coord_changer.ipynb\<close> computes with Python floats wrapped in
  astropy quantities. The floats are modelled by the real numbers, so rounding is not part of
  the model. A float division by zero raises nothing: numpy returns \<^verbatim>\<open>inf\<close>, \<^verbatim>\<open>-inf\<close> or
  \<^verbatim>\<open>nan\<close> together with a RuntimeWarning and carries on. The quotient is therefore a value
  of a type of its own; a zero divisor is the positive zero, which literals and the
  difference of equal floats are. \<^verbatim>\<open>np.arctan\<close> maps the infinities to plus and minus
  \<open>pi / 2\<close> and keeps \<^verbatim>\<open>nan\<close>. Everywhere else a quotient that is not finite makes the
  results of the cell \<^verbatim>\<open>inf\<close> or \<^verbatim>\<open>nan\<close>: such a result has the value \<open>None\<close>, as has
  the power \<^verbatim>\<open>x ** (1/2)\<close> of a negative base (\<^verbatim>\<open>nan\<close>).
\<close>

datatype quotient = Finite real | PosInf | NegInf | NaN

definition np_div :: "real \<Rightarrow> real \<Rightarrow> quotient" where
  "np_div x y =
     (if y \<noteq> 0 then Finite (x / y)
      else if 0 < x then PosInf
      else if x < 0 then NegInf
      else NaN)"

fun np_arctan :: "quotient \<Rightarrow> real option" where
  "np_arctan (Finite q) = Some (arctan q)"
| "np_arctan PosInf = Some (pi / 2)"
| "np_arctan NegInf = Some (- (pi / 2))"
| "np_arctan NaN = None"

fun np_finite :: "quotient \<Rightarrow> real option" where
  "np_finite (Finite q) = Some q"
| "np_finite PosInf = None"
| "np_finite NegInf = None"
| "np_finite NaN = None"

definition np_sqrt :: "real \<Rightarrow> real option" where
  "np_sqrt x = (if x < 0 then None else Some (sqrt x))"

text \<open>
  \<^verbatim>\<open>np.degrees\<close> turns the radian result of \<^verbatim>\<open>np.arctan\<close> into a quantity in degrees.
  \<^verbatim>\<open>np.sin\<close> and \<^verbatim>\<open>np.cos\<close> of a quantity in degrees are unit aware: astropy converts the
  angle to radians before the function is applied.
\<close>

definition degrees :: "real \<Rightarrow> real" where
  "degrees r = r * (180 / pi)"

definition radians :: "real \<Rightarrow> real" where
  "radians d = d * (pi / 180)"

definition sin_deg :: "real \<Rightarrow> real" where
  "sin_deg d = sin (radians d)"

definition cos_deg :: "real \<Rightarrow> real" where
  "cos_deg d = cos (radians d)"

section \<open>Data\<close>

record EllipsoidModel =
  ell_a :: real
  ell_b :: real
  ell_e :: real
  ell_e_prime :: real

record EcefPoint =
  ecef_X :: real
  ecef_Y :: real
  ecef_Z :: real

record LlaPoint =
  lla_phi :: real
  lla_lam :: real
  lla_h :: real

section \<open>Reference ellipsoid (cells 11 and 12)\<close>

text \<open>
  \<^verbatim>\<open>b = a * (1 - f)\<close>,
  \<^verbatim>\<open>e = np.longdouble(((a**2 - b**2)**(1/2))/a)\<close>,
  \<^verbatim>\<open>e_prime = np.longdouble(e/((1 - e**2)**(1/2)))\<close>.
\<close>

definition b_of :: "real \<Rightarrow> real \<Rightarrow> real" where
  "b_of a f = a * (1 - f)"

definition e_of :: "real \<Rightarrow> real \<Rightarrow> real option" where
  "e_of a b = do { s \<leftarrow> np_sqrt (a\<^sup>2 - b\<^sup>2); np_finite (np_div s a) }"

definition e_prime_of :: "real \<Rightarrow> real option" where
  "e_prime_of e = do { s \<leftarrow> np_sqrt (1 - e\<^sup>2); np_finite (np_div e s) }"

definition deriveEllipsoidModel :: "real \<Rightarrow> real \<Rightarrow> EllipsoidModel option" where
  "deriveEllipsoidModel a f = do {
     let b = b_of a f;
     e \<leftarrow> e_of a b;
     e' \<leftarrow> e_prime_of e;
     Some \<lparr>ell_a = a, ell_b = b, ell_e = e, ell_e_prime = e'\<rparr>
   }"

text \<open>The constants of the notebook: GRS80.\<close>

definition a_grs80 :: real where
  "a_grs80 = 6378137"

definition f_grs80 :: real where
  "f_grs80 = 3352810681183637418 / 10 ^ 21"

text \<open>The model of cell 12; \<open>derive_grs80\<close> below shows that the derivation succeeds.\<close>

definition grs80 :: EllipsoidModel where
  "grs80 = the (deriveEllipsoidModel a_grs80 f_grs80)"

section \<open>ECEF to LLA (cell 14)\<close>

text \<open>\<^verbatim>\<open>lam = np.degrees(np.arctan(Y_original/X_original))\<close>\<close>

definition lam_of :: "EcefPoint \<Rightarrow> real option" where
  "lam_of pt = do { r \<leftarrow> np_arctan (np_div (ecef_Y pt) (ecef_X pt)); Some (degrees r) }"

text \<open>\<^verbatim>\<open>p = (X_original**2 + Y_original**2)**(1/2)\<close>\<close>

definition p_of :: "EcefPoint \<Rightarrow> real option" where
  "p_of pt = np_sqrt ((ecef_X pt)\<^sup>2 + (ecef_Y pt)\<^sup>2)"

text \<open>\<^verbatim>\<open>theta = np.degrees(np.arctan((Z_original * a)/(p * b)))\<close>\<close>

definition theta_of :: "EllipsoidModel \<Rightarrow> EcefPoint \<Rightarrow> real \<Rightarrow> real option" where
  "theta_of m pt p = do {
     r \<leftarrow> np_arctan (np_div (ecef_Z pt * ell_a m) (p * ell_b m));
     Some (degrees r)
   }"

text \<open>
  \<^verbatim>\<open>phi = np.degrees(np.arctan((Z_original + e_prime**2 * b * (np.sin(theta)**3))
                                /(p - e**2 * a * (np.cos(theta)**3))))\<close>
\<close>

definition phi_of :: "EllipsoidModel \<Rightarrow> EcefPoint \<Rightarrow> real \<Rightarrow> real \<Rightarrow> real option" where
  "phi_of m pt p theta = do {
     r \<leftarrow> np_arctan
           (np_div (ecef_Z pt + (ell_e_prime m)\<^sup>2 * ell_b m * (sin_deg theta) ^ 3)
                   (p - (ell_e m)\<^sup>2 * ell_a m * (cos_deg theta) ^ 3));
     Some (degrees r)
   }"

text \<open>\<^verbatim>\<open>N = a / ((1 - e**2 * (np.sin(phi)**2))**(1/2))\<close>\<close>

definition N_of :: "EllipsoidModel \<Rightarrow> real \<Rightarrow> real option" where
  "N_of m phi = do {
     s \<leftarrow> np_sqrt (1 - (ell_e m)\<^sup>2 * (sin_deg phi)\<^sup>2);
     np_finite (np_div (ell_a m) s)
   }"

text \<open>\<^verbatim>\<open>h = (p / np.cos(phi)) - N\<close>\<close>

definition h_of :: "real \<Rightarrow> real \<Rightarrow> real \<Rightarrow> real option" where
  "h_of p phi N = do { c \<leftarrow> np_finite (np_div p (cos_deg phi)); Some (c - N) }"

text \<open>The cell as a whole: the geodetic point and the radius of curvature \<open>N\<close>.\<close>

definition ecefToLla :: "EllipsoidModel \<Rightarrow> EcefPoint \<Rightarrow> (LlaPoint \<times> real) option" where
  "ecefToLla m pt = do {
     lam \<leftarrow> lam_of pt;
     p \<leftarrow> p_of pt;
     theta \<leftarrow> theta_of m pt p;
     phi \<leftarrow> phi_of m pt p theta;
     N \<leftarrow> N_of m phi;
     h \<leftarrow> h_of p phi N;
     Some (\<lparr>lla_phi = phi, lla_lam = lam, lla_h = h\<rparr>, N)
   }"

section \<open>Altitude offset (cell 16)\<close>

text \<open>\<^verbatim>\<open>h_offset = h + alt_offset\<close>; latitude and longitude are used as they are.\<close>

definition applyAltitudeOffset :: "LlaPoint \<Rightarrow> real \<Rightarrow> LlaPoint" where
  "applyAltitudeOffset lla alt_offset = lla\<lparr>lla_h := lla_h lla + alt_offset\<rparr>"

section \<open>LLA to ECEF (cell 18)\<close>

text \<open>
  \<^verbatim>\<open>X_new = (N + h_offset) * np.cos(phi) * np.cos(lam)\<close>,
  \<^verbatim>\<open>Y_new = (N + h_offset) * np.cos(phi) * np.sin(lam)\<close>,
  \<^verbatim>\<open>Z_new = (((b**2 / a**2)*N) + h_offset) * np.sin(phi)\<close>.
\<close>

definition llaToEcef :: "EllipsoidModel \<Rightarrow> LlaPoint \<Rightarrow> real \<Rightarrow> EcefPoint option" where
  "llaToEcef m lla N = do {
     r \<leftarrow> np_finite (np_div ((ell_b m)\<^sup>2) ((ell_a m)\<^sup>2));
     Some \<lparr>ecef_X = (N + lla_h lla) * cos_deg (lla_phi lla) * cos_deg (lla_lam lla),
           ecef_Y = (N + lla_h lla) * cos_deg (lla_phi lla) * sin_deg (lla_lam lla),
           ecef_Z = ((r * N) + lla_h lla) * sin_deg (lla_phi lla)\<rparr>
   }"

section \<open>Differences (last code cell)\<close>

text \<open>\<^verbatim>\<open>X_dif = X_new - X_original\<close> and likewise for Y and Z.\<close>

definition diff :: "EcefPoint \<Rightarrow> EcefPoint \<Rightarrow> EcefPoint" where
  "diff new orig = \<lparr>ecef_X = ecef_X new - ecef_X orig,
                    ecef_Y = ecef_Y new - ecef_Y orig,
                    ecef_Z = ecef_Z new - ecef_Z orig\<rparr>"

text \<open>
  The notebook from the first cell to the last: model, conversion, offset, conversion back.
\<close>

definition offsetEcef :: "EllipsoidModel \<Rightarrow> EcefPoint \<Rightarrow> real \<Rightarrow> EcefPoint option" where
  "offsetEcef m pt alt_offset = do {
     (lla, N) \<leftarrow> ecefToLla m pt;
     llaToEcef m (applyAltitudeOffset lla alt_offset) N
   }"

text \<open>The input of the notebook: the Green Bank Telescope.\<close>

definition gbt :: EcefPoint where
  "gbt = \<lparr>ecef_X = 882589289 / 1000, ecef_Y = - (4924872368 / 1000), ecef_Z = 3943729418 / 1000\<rparr>"

section \<open>Closed forms and enclosures\<close>

text \<open>
  The quantities below are not computed by the notebook under these names: they are the
  values of its intermediate expressions with the trigonometric functions of an arctangent
  written out, \<open>sin (arctan t) = t / sqrt (1 + t\<^sup>2)\<close> and \<open>cos (arctan t) = 1 / sqrt (1 + t\<^sup>2)\<close>.
  \<open>ecefToLla_closed\<close> and \<open>offsetEcef_closed\<close> prove that the notebook's
  computation returns them. \<open>axis_p\<close> is \<^verbatim>\<open>p\<close>; \<open>lat_q\<close> is the argument of the arctangent in
  \<^verbatim>\<open>phi\<close>, with numerator \<open>lat_num\<close> and denominator \<open>lat_den\<close>; \<open>curv_N\<close> is \<^verbatim>\<open>N\<close> and
  \<open>alt_h\<close> is \<^verbatim>\<open>h\<close>.
\<close>

definition axis_p :: "EcefPoint \<Rightarrow> real" where
  "axis_p pt = sqrt ((ecef_X pt)\<^sup>2 + (ecef_Y pt)\<^sup>2)"

definition aux_S :: "EllipsoidModel \<Rightarrow> EcefPoint \<Rightarrow> real" where
  "aux_S m pt = sqrt ((axis_p pt * ell_b m)\<^sup>2 + (ecef_Z pt * ell_a m)\<^sup>2)"

definition lat_num :: "EllipsoidModel \<Rightarrow> EcefPoint \<Rightarrow> real" where
  "lat_num m pt = ecef_Z pt + (ell_e_prime m)\<^sup>2 * ell_b m * (ecef_Z pt * ell_a m / aux_S m pt) ^ 3"

definition lat_den :: "EllipsoidModel \<Rightarrow> EcefPoint \<Rightarrow> real" where
  "lat_den m pt = axis_p pt - (ell_e m)\<^sup>2 * ell_a m * (axis_p pt * ell_b m / aux_S m pt) ^ 3"

definition lat_q :: "EllipsoidModel \<Rightarrow> EcefPoint \<Rightarrow> real" where
  "lat_q m pt = lat_num m pt / lat_den m pt"

definition curv_N :: "EllipsoidModel \<Rightarrow> real \<Rightarrow> real" where
  "curv_N m q = ell_a m / sqrt (1 - (ell_e m)\<^sup>2 * (q / sqrt (1 + q\<^sup>2))\<^sup>2)"

definition alt_h :: "EllipsoidModel \<Rightarrow> EcefPoint \<Rightarrow> real" where
  "alt_h m pt = axis_p pt * sqrt (1 + (lat_q m pt)\<^sup>2) - curv_N m (lat_q m pt)"

text \<open>A real number between two bounds, and the partial sums of the arctangent series.\<close>

definition encl :: "real \<Rightarrow> real \<Rightarrow> real \<Rightarrow> bool" where
  "encl l u x \<longleftrightarrow> l \<le> x \<and> x \<le> u"

definition arctan_sum :: "nat \<Rightarrow> real \<Rightarrow> real" where
  "arctan_sum n x = (\<Sum>k<n. (- 1) ^ k * (1 / real (k * 2 + 1) * x ^ (k * 2 + 1)))"

text \<open>
  Two further inputs: a point in the eastern hemisphere beyond the 90th meridian (longitude 135
  degrees), and a point at the distance of a navigation satellite.
\<close>

definition east :: EcefPoint where
  "east = \<lparr>ecef_X = - 4000000, ecef_Y = 4000000, ecef_Z = 3000000\<rparr>"

definition sat :: EcefPoint where
  "sat = \<lparr>ecef_X = 15600000, ecef_Y = 7540000, ecef_Z = 20140000\<rparr>"




section \<open>Basic facts\<close>

lemma np_finite_div: "np_finite (np_div x y) = (if y = 0 then None else Some (x / y))"
  by (simp add: np_div_def)

lemma np_arctan_div:
  "np_arctan (np_div y x) =
     (if x \<noteq> 0 then Some (arctan (y / x))
      else if 0 < y then Some (pi / 2)
      else if y < 0 then Some (- (pi / 2))
      else None)"
  by (simp add: np_div_def)

lemma degrees_quarter [simp]: "degrees (pi / 2) = 90" "degrees (- (pi / 2)) = - 90"
  by (simp_all add: degrees_def)

lemma sin_deg_degrees [simp]: "sin_deg (degrees r) = sin r"
  by (simp add: sin_deg_def radians_def degrees_def)

lemma cos_deg_degrees [simp]: "cos_deg (degrees r) = cos r"
  by (simp add: cos_deg_def radians_def degrees_def)

section \<open>The derived constants\<close>

lemma sq_diff_b: "a\<^sup>2 - (b_of a f)\<^sup>2 = a\<^sup>2 * (f * (2 - f))"
  by (simp add: b_of_def power2_eq_square algebra_simps)

lemma e_of_eq:
  "e_of a (b_of a f) =
     (if a \<noteq> 0 \<and> 0 \<le> f \<and> f \<le> 2 then Some (sqrt (a\<^sup>2 - (b_of a f)\<^sup>2) / a) else None)"
proof -
  have "a\<^sup>2 * (f * (2 - f)) < 0 \<longleftrightarrow> a \<noteq> 0 \<and> \<not> (0 \<le> f \<and> f \<le> 2)"
    by (auto simp: mult_less_0_iff zero_less_mult_iff not_le)
  then show ?thesis
    by (auto simp: e_of_def np_sqrt_def np_finite_div sq_diff_b)
qed

lemma e_squared:
  assumes "a \<noteq> 0" "0 \<le> f" "f \<le> 2"
  shows "(sqrt (a\<^sup>2 - (b_of a f)\<^sup>2) / a)\<^sup>2 = f * (2 - f)"
proof -
  have nn: "0 \<le> a\<^sup>2 * (f * (2 - f))"
    using assms by simp
  have "(sqrt (a\<^sup>2 - (b_of a f)\<^sup>2) / a)\<^sup>2 = (sqrt (a\<^sup>2 * (f * (2 - f))))\<^sup>2 / a\<^sup>2"
    by (simp only: sq_diff_b power_divide)
  also have "\<dots> = a\<^sup>2 * (f * (2 - f)) / a\<^sup>2"
    using nn by (simp only: real_sqrt_pow2)
  also have "\<dots> = f * (2 - f)"
    using assms by simp
  finally show ?thesis .
qed

lemma one_minus_e_squared:
  assumes "a \<noteq> 0" "0 \<le> f" "f \<le> 2"
  shows "1 - (sqrt (a\<^sup>2 - (b_of a f)\<^sup>2) / a)\<^sup>2 = (1 - f)\<^sup>2"
  unfolding e_squared [OF assms] by (simp add: power2_eq_square algebra_simps)

lemma e_prime_of_eq:
  assumes "a \<noteq> 0" "0 \<le> f" "f \<le> 2"
  shows "e_prime_of (sqrt (a\<^sup>2 - (b_of a f)\<^sup>2) / a) =
     (if f = 1 then None else Some (sqrt (a\<^sup>2 - (b_of a f)\<^sup>2) / a / \<bar>1 - f\<bar>))"
  by (simp add: e_prime_of_def np_sqrt_def np_finite_div one_minus_e_squared [OF assms])

lemma derive_eq:
  "deriveEllipsoidModel a f =
     (if a \<noteq> 0 \<and> 0 \<le> f \<and> f \<le> 2 \<and> f \<noteq> 1
      then Some \<lparr>ell_a = a, ell_b = a * (1 - f),
                 ell_e = sqrt (a\<^sup>2 - (a * (1 - f))\<^sup>2) / a,
                 ell_e_prime = sqrt (a\<^sup>2 - (a * (1 - f))\<^sup>2) / a / \<bar>1 - f\<bar>\<rparr>
      else None)"
proof (cases "a \<noteq> 0 \<and> 0 \<le> f \<and> f \<le> 2")
  case True
  then show ?thesis
    using e_prime_of_eq [of a f]
    by (simp add: deriveEllipsoidModel_def e_of_eq Let_def) (simp add: b_of_def)
next
  case False
  then show ?thesis
    by (auto simp add: deriveEllipsoidModel_def e_of_eq Let_def)
qed

lemma derive_fields:
  assumes "deriveEllipsoidModel a f = Some m"
  shows "ell_a m = a" and "ell_b m = a * (1 - f)"
    and "(ell_e m)\<^sup>2 = f * (2 - f)"
    and "(ell_e_prime m)\<^sup>2 = f * (2 - f) / (1 - f)\<^sup>2"
    and "a \<noteq> 0" and "0 \<le> f" and "f \<le> 2" and "f \<noteq> 1"
proof -
  have ok: "a \<noteq> 0 \<and> 0 \<le> f \<and> f \<le> 2 \<and> f \<noteq> 1"
    using assms by (simp add: derive_eq split: if_splits)
  then show "a \<noteq> 0" and "0 \<le> f" and "f \<le> 2" and "f \<noteq> 1"
    by simp_all
  have m: "m = \<lparr>ell_a = a, ell_b = a * (1 - f),
                 ell_e = sqrt (a\<^sup>2 - (a * (1 - f))\<^sup>2) / a,
                 ell_e_prime = sqrt (a\<^sup>2 - (a * (1 - f))\<^sup>2) / a / \<bar>1 - f\<bar>\<rparr>"
    using assms ok by (simp add: derive_eq)
  show "ell_a m = a" and "ell_b m = a * (1 - f)"
    by (simp_all add: m)
  have e2: "(sqrt (a\<^sup>2 - (a * (1 - f))\<^sup>2) / a)\<^sup>2 = f * (2 - f)"
    using e_squared [of a f] ok by (simp add: b_of_def)
  show "(ell_e m)\<^sup>2 = f * (2 - f)"
    by (simp add: m e2)
  have "(ell_e_prime m)\<^sup>2 = (sqrt (a\<^sup>2 - (a * (1 - f))\<^sup>2) / a)\<^sup>2 / \<bar>1 - f\<bar>\<^sup>2"
    by (simp only: m EllipsoidModel.simps power_divide)
  then show "(ell_e_prime m)\<^sup>2 = f * (2 - f) / (1 - f)\<^sup>2"
    by (simp add: e2)
qed

lemma derive_grs80: "deriveEllipsoidModel a_grs80 f_grs80 = Some grs80"
proof -
  have "deriveEllipsoidModel a_grs80 f_grs80 \<noteq> None"
    by (simp add: derive_eq a_grs80_def f_grs80_def)
  then show ?thesis
    by (auto simp: grs80_def)
qed

lemmas grs80_fields = derive_fields [OF derive_grs80]

section \<open>The conversion, step by step\<close>

lemma sin_arctan_frac:
  fixes n d :: real
  assumes "0 < d"
  shows "sin (arctan (n / d)) = n / sqrt (d\<^sup>2 + n\<^sup>2)"
proof -
  have "1 + (n / d)\<^sup>2 = (d\<^sup>2 + n\<^sup>2) / d\<^sup>2"
    using assms by (simp add: power_divide field_simps)
  then have "sqrt (1 + (n / d)\<^sup>2) = sqrt (d\<^sup>2 + n\<^sup>2) / d"
    using assms by (simp add: real_sqrt_divide)
  then show ?thesis
    using assms by (simp add: sin_arctan)
qed

lemma cos_arctan_frac:
  fixes n d :: real
  assumes "0 < d"
  shows "cos (arctan (n / d)) = d / sqrt (d\<^sup>2 + n\<^sup>2)"
proof -
  have "1 + (n / d)\<^sup>2 = (d\<^sup>2 + n\<^sup>2) / d\<^sup>2"
    using assms by (simp add: power_divide field_simps)
  then have "sqrt (1 + (n / d)\<^sup>2) = sqrt (d\<^sup>2 + n\<^sup>2) / d"
    using assms by (simp add: real_sqrt_divide)
  then show ?thesis
    using assms by (simp add: cos_arctan)
qed


lemma llaToEcef_eq:
  "llaToEcef m lla N =
     (if ell_a m = 0 then None
      else Some \<lparr>ecef_X = (N + lla_h lla) * cos_deg (lla_phi lla) * cos_deg (lla_lam lla),
                 ecef_Y = (N + lla_h lla) * cos_deg (lla_phi lla) * sin_deg (lla_lam lla),
                 ecef_Z = (((ell_b m)\<^sup>2 / (ell_a m)\<^sup>2 * N) + lla_h lla) * sin_deg (lla_phi lla)\<rparr>)"
  by (simp add: llaToEcef_def np_finite_div)


section \<open>The conversion in closed form\<close>

lemma sin_arctan_sq_le: "(sin (arctan q))\<^sup>2 \<le> 1"
  using abs_sin_le_one [of "arctan q"] by (simp add: abs_square_le_1)

lemma curvature_radicand_pos:
  fixes e2 :: real
  assumes "0 \<le> e2" "e2 < 1"
  shows "0 < 1 - e2 * (sin (arctan q))\<^sup>2"
proof -
  have "e2 * (sin (arctan q))\<^sup>2 \<le> e2 * 1"
    using assms(1) sin_arctan_sq_le by (rule mult_left_mono [rotated])
  then show ?thesis
    using assms(2) by simp
qed

lemma ecefToLla_closed:
  assumes a: "0 < ell_a m" and b: "0 < ell_b m" and e: "(ell_e m)\<^sup>2 < 1"
    and x: "ecef_X pt \<noteq> 0" and den: "lat_den m pt \<noteq> 0"
  shows "ecefToLla m pt =
     Some (\<lparr>lla_phi = degrees (arctan (lat_q m pt)),
            lla_lam = degrees (arctan (ecef_Y pt / ecef_X pt)),
            lla_h = axis_p pt * sqrt (1 + (lat_q m pt)\<^sup>2) - curv_N m (lat_q m pt)\<rparr>,
           curv_N m (lat_q m pt))"
proof -
  let ?p = "axis_p pt"
  have p_pos: "0 < ?p"
    using x by (simp add: axis_p_def sum_power2_gt_zero_iff)
  have pb: "0 < ?p * ell_b m"
    using p_pos b by simp
  have lam: "lam_of pt = Some (degrees (arctan (ecef_Y pt / ecef_X pt)))"
    using x by (simp add: lam_of_def np_arctan_div)
  have p: "p_of pt = Some ?p"
    by (simp add: p_of_def np_sqrt_def axis_p_def not_less)
  let ?t = "ecef_Z pt * ell_a m / (?p * ell_b m)"
  have theta: "theta_of m pt ?p = Some (degrees (arctan ?t))"
    using p_pos b by (simp add: theta_of_def np_arctan_div)
  have st: "sin (arctan ?t) = ecef_Z pt * ell_a m / aux_S m pt"
    and ct: "cos (arctan ?t) = ?p * ell_b m / aux_S m pt"
    using sin_arctan_frac [OF pb] cos_arctan_frac [OF pb] by (simp_all add: aux_S_def)
  have phi: "phi_of m pt ?p (degrees (arctan ?t)) = Some (degrees (arctan (lat_q m pt)))"
    using den by (simp add: phi_of_def np_arctan_div st ct lat_q_def lat_num_def lat_den_def)
  let ?q = "lat_q m pt"
  have rad: "0 < 1 - (ell_e m)\<^sup>2 * (sin (arctan ?q))\<^sup>2"
    using e by (intro curvature_radicand_pos) simp_all
  have N: "N_of m (degrees (arctan ?q)) = Some (curv_N m ?q)"
    using rad by (simp add: N_of_def np_sqrt_def np_finite_div curv_N_def sin_arctan not_less)
  have "0 < 1 + ?q\<^sup>2"
    by (simp add: add_pos_nonneg)
  then have h: "h_of ?p (degrees (arctan ?q)) (curv_N m ?q) = Some (?p * sqrt (1 + ?q\<^sup>2) - curv_N m ?q)"
    by (simp add: h_of_def np_finite_div cos_arctan)
  show ?thesis
    by (simp add: ecefToLla_def lam p theta phi N h)
qed

lemma offsetEcef_closed:
  assumes a: "0 < ell_a m" and b: "0 < ell_b m" and e: "(ell_e m)\<^sup>2 < 1"
    and x: "0 < ecef_X pt" and den: "lat_den m pt \<noteq> 0"
  shows "offsetEcef m pt dh =
     Some \<lparr>ecef_X = (curv_N m (lat_q m pt) + (alt_h m pt + dh))
                       * (1 / sqrt (1 + (lat_q m pt)\<^sup>2)) * (ecef_X pt / axis_p pt),
           ecef_Y = (curv_N m (lat_q m pt) + (alt_h m pt + dh))
                       * (1 / sqrt (1 + (lat_q m pt)\<^sup>2)) * (ecef_Y pt / axis_p pt),
           ecef_Z = ((ell_b m)\<^sup>2 / (ell_a m)\<^sup>2 * curv_N m (lat_q m pt) + (alt_h m pt + dh))
                       * (lat_q m pt / sqrt (1 + (lat_q m pt)\<^sup>2))\<rparr>"
proof -
  have x0: "ecef_X pt \<noteq> 0"
    using x by simp
  have a0: "ell_a m \<noteq> 0"
    using a by simp
  have cl: "cos (arctan (ecef_Y pt / ecef_X pt)) = ecef_X pt / axis_p pt"
    and sl: "sin (arctan (ecef_Y pt / ecef_X pt)) = ecef_Y pt / axis_p pt"
    using cos_arctan_frac [OF x] sin_arctan_frac [OF x] by (simp_all add: axis_p_def)
  have cq: "cos (arctan (lat_q m pt)) = 1 / sqrt (1 + (lat_q m pt)\<^sup>2)"
    and sq: "sin (arctan (lat_q m pt)) = lat_q m pt / sqrt (1 + (lat_q m pt)\<^sup>2)"
    by (rule cos_arctan, rule sin_arctan)
  show ?thesis
    by (simp add: offsetEcef_def ecefToLla_closed [OF a b e x0 den] llaToEcef_eq a0
        applyAltitudeOffset_def alt_h_def cl sl cq sq)
qed

text \<open>
  The conversion is defined for every point off the plane \<open>X = 0\<close> that is farther from the
  polar axis than \<open>e\<^sup>2 * a\<close> (about 42.7 km for GRS80).
\<close>

lemma lat_den_pos:
  assumes a: "0 < ell_a m" and b: "0 < ell_b m"
    and far: "(ell_e m)\<^sup>2 * ell_a m < axis_p pt"
  shows "0 < lat_den m pt"
proof -
  let ?pb = "axis_p pt * ell_b m" and ?S = "aux_S m pt"
  have p0: "0 \<le> axis_p pt"
    by (simp add: axis_p_def)
  have pb0: "0 \<le> ?pb"
    using p0 b by simp
  have "?pb = sqrt (?pb\<^sup>2)"
    using pb0 by simp
  also have "\<dots> \<le> ?S"
    unfolding aux_S_def by (rule real_sqrt_le_mono) simp
  finally have le: "?pb \<le> ?S" .
  have S0: "0 \<le> ?S"
    using pb0 le by simp
  have c0: "0 \<le> ?pb / ?S"
    using pb0 S0 by (rule divide_nonneg_nonneg)
  have c1: "?pb / ?S \<le> 1"
    using le S0 by (auto simp: divide_le_eq_1 less_le)
  have "(?pb / ?S) ^ 3 \<le> 1 ^ 3"
    using c0 c1 by (rule power_mono [rotated])
  then have "(ell_e m)\<^sup>2 * ell_a m * (?pb / ?S) ^ 3 \<le> (ell_e m)\<^sup>2 * ell_a m * 1"
    using a by (intro mult_left_mono) simp_all
  then show ?thesis
    using far by (simp add: lat_den_def)
qed

lemma axis_p_sq: "(axis_p pt)\<^sup>2 = (ecef_X pt)\<^sup>2 + (ecef_Y pt)\<^sup>2"
  by (simp add: axis_p_def)

lemma aux_S_eq:
  "aux_S m pt = sqrt (((ecef_X pt)\<^sup>2 + (ecef_Y pt)\<^sup>2) * (ell_b m)\<^sup>2 + (ecef_Z pt * ell_a m)\<^sup>2)"
  by (simp add: aux_S_def power_mult_distrib axis_p_sq)

lemma grs80_pos: "0 < ell_a grs80" "0 < ell_b grs80" "(ell_e grs80)\<^sup>2 < 1"
  by (simp_all add: grs80_fields a_grs80_def f_grs80_def)

lemmas grs80_num = grs80_fields(1-4) a_grs80_def f_grs80_def

section \<open>Enclosures\<close>

text \<open>
  Interval arithmetic with outward rounding: each rule takes enclosures of the operands and
  two closed inequalities between rational numbers, which the simplifier decides.
\<close>

lemma encl_refl: "encl x x x"
  by (simp add: encl_def)

lemma encl_add:
  "encl l1 u1 x \<Longrightarrow> encl l2 u2 y \<Longrightarrow> l \<le> l1 + l2 \<Longrightarrow> u1 + u2 \<le> u \<Longrightarrow> encl l u (x + y)"
  by (simp add: encl_def)

lemma encl_sub:
  "encl l1 u1 x \<Longrightarrow> encl l2 u2 y \<Longrightarrow> l \<le> l1 - u2 \<Longrightarrow> u1 - l2 \<le> u \<Longrightarrow> encl l u (x - y)"
  by (simp add: encl_def)

lemma encl_mult:
  assumes "encl l1 u1 x" "encl l2 u2 y" "0 \<le> l1" "0 \<le> l2" "l \<le> l1 * l2" "u1 * u2 \<le> u"
  shows "encl l u (x * y)"
proof -
  have "l1 * l2 \<le> x * y" "x * y \<le> u1 * u2"
    using assms(1-4) by (auto simp: encl_def intro!: mult_mono)
  then show ?thesis
    using assms(5,6) by (simp add: encl_def)
qed

lemma encl_div:
  assumes "encl l1 u1 x" "encl l2 u2 y" "0 \<le> l1" "0 < l2" "l \<le> l1 / u2" "u1 / l2 \<le> u"
  shows "encl l u (x / y)"
proof -
  have "l1 / u2 \<le> x / y" "x / y \<le> u1 / l2"
    using assms(1-4) by (auto simp: encl_def intro!: frac_le)
  then show ?thesis
    using assms(5,6) by (simp add: encl_def)
qed

lemma encl_power:
  assumes "encl l1 u1 x" "0 \<le> l1" "l \<le> l1 ^ n" "u1 ^ n \<le> u"
  shows "encl l u (x ^ n)"
proof -
  have "l1 ^ n \<le> x ^ n" "x ^ n \<le> u1 ^ n"
    using assms(1,2) by (auto simp: encl_def intro!: power_mono)
  then show ?thesis
    using assms(3,4) by (simp add: encl_def)
qed

lemma encl_sqrt:
  assumes "encl l1 u1 x" "0 \<le> l" "l\<^sup>2 \<le> l1" "u1 \<le> u\<^sup>2" "0 \<le> u"
  shows "encl l u (sqrt x)"
proof -
  have "l\<^sup>2 \<le> x" "x \<le> u\<^sup>2"
    using assms(1,3,4) by (auto simp: encl_def)
  then show ?thesis
    using assms(2,5) by (simp add: encl_def real_le_rsqrt real_le_lsqrt)
qed

lemma encl_weaken:
  "encl l1 u1 x \<Longrightarrow> l \<le> l1 \<Longrightarrow> u1 \<le> u \<Longrightarrow> encl l u x"
  by (simp add: encl_def)

lemma encl_div_neg:
  assumes "encl l1 u1 x" "encl l2 u2 y" "u1 \<le> 0" "0 < l2" "l \<le> l1 / l2" "u1 / u2 \<le> u"
  shows "encl l u (x / y)"
proof -
  have "encl (- u1 / u2) (- l1 / l2) (- x / y)"
    using assms(1-4) by (intro encl_div [of "- u1" "- l1" _ l2 u2]) (simp_all add: encl_def)
  then show ?thesis
    using assms(5,6) by (simp add: encl_def)
qed

lemma encl_mult_neg:
  assumes "encl l1 u1 x" "encl l2 u2 y" "0 \<le> l1" "u2 \<le> 0" "l \<le> u1 * l2" "l1 * u2 \<le> u"
  shows "encl l u (x * y)"
proof -
  have "encl (l1 * - u2) (u1 * - l2) (x * - y)"
    using assms(1-4) by (intro encl_mult [of l1 u1 _ "- u2" "- l2"]) (simp_all add: encl_def)
  then show ?thesis
    using assms(5,6) by (simp add: encl_def)
qed

lemma encl_abs:
  "encl l u x \<Longrightarrow> c - t \<le> l \<Longrightarrow> u \<le> c + t \<Longrightarrow> \<bar>x - c\<bar> \<le> t"
  by (simp add: encl_def abs_le_iff)

lemma encl_pos: "encl l u x \<Longrightarrow> 0 < l \<Longrightarrow> 0 < x"
  by (simp add: encl_def)

lemma encl_abs_diff:
  "encl l u x \<Longrightarrow> c + d - t \<le> l \<Longrightarrow> u \<le> c + d + t \<Longrightarrow> \<bar>x - c - d\<bar> \<le> t"
  by (simp add: encl_def abs_le_iff)

lemma encl_abs_small:
  "encl l u x \<Longrightarrow> c - t < l \<Longrightarrow> u < c + t \<Longrightarrow> \<bar>x - c\<bar> < t"
  by (simp add: encl_def abs_less_iff)

lemma encl_abs_far_below: "encl l u x \<Longrightarrow> u + t < c \<Longrightarrow> t < \<bar>x - c\<bar>"
  by (auto simp: encl_def abs_if)


subsection \<open>The arctangent and \<open>\<pi>\<close>\<close>

lemma arctan_sum_bounds:
  assumes "0 < x" "x \<le> 1"
  shows "arctan_sum (2 * n) x \<le> arctan x \<and> arctan x \<le> arctan_sum (2 * n + 1) x"
proof -
  let ?a = "\<lambda>k. 1 / real (k * 2 + 1) * x ^ (k * 2 + 1)"
  have ax: "\<bar>x\<bar> \<le> 1"
    using assms by simp
  have "0 < ?a 0"
    using assms by simp
  then have "(\<Sum>k. (- 1) ^ k * ?a k) \<in> {(\<Sum>k<2 * n. (- 1) ^ k * ?a k) .. (\<Sum>k<2 * n + 1. (- 1) ^ k * ?a k)}"
    using summable_Leibniz(2) [OF zeroseq_arctan_series [OF ax] monoseq_arctan_series [OF ax]]
    by blast
  then show ?thesis
    unfolding arctan_sum_def arctan_series [OF ax] atLeastAtMost_iff .
qed

lemma arctan_sum_0: "arctan_sum 0 x = 0"
  by (simp add: arctan_sum_def)

lemma arctan_sum_Suc:
  "arctan_sum (Suc n) x = arctan_sum n x + (- 1) ^ n * (x ^ (n * 2 + 1) / real (n * 2 + 1))"
  by (simp add: arctan_sum_def)

lemmas arctan_sum_eval = arctan_sum_0 arctan_sum_Suc eval_nat_numeral

lemma encl_arctan:
  assumes "encl l1 u1 x" "0 < l1" "u1 \<le> 1"
    and "l \<le> arctan_sum (2 * n) l1" "arctan_sum (2 * n + 1) u1 \<le> u"
  shows "encl l u (arctan x)"
proof -
  have x: "l1 \<le> x" "x \<le> u1"
    using assms(1) by (simp_all add: encl_def)
  have "arctan_sum (2 * n) l1 \<le> arctan l1"
    using arctan_sum_bounds [of l1 n] assms(2,3) x by simp
  also have "\<dots> \<le> arctan x"
    using x by (simp add: arctan_le_iff)
  finally have lo: "l \<le> arctan x"
    using assms(4) by simp
  have "arctan x \<le> arctan u1"
    using x by (simp add: arctan_le_iff)
  also have "\<dots> \<le> arctan_sum (2 * n + 1) u1"
    using arctan_sum_bounds [of u1 n] assms(2,3) x by simp
  finally have "arctan x \<le> u"
    using assms(5) by simp
  with lo show ?thesis
    by (simp add: encl_def)
qed

lemma encl_pi: "encl 3.1415926535 3.1415926536 pi"
proof -
  have m: "pi = 16 * arctan (1 / 5) - 4 * arctan (1 / 239)"
    using machin by simp
  have b5: "encl 0.1973955598498 0.1973955598499 (arctan (1 / 5))"
    by (rule encl_arctan [OF encl_refl, where n = 4]) (simp_all add: arctan_sum_eval)
  have b239: "encl 0.0041840760018 0.004184076002075 (arctan (1 / 239))"
    by (rule encl_arctan [OF encl_refl, where n = 1]) (simp_all add: arctan_sum_eval)
  show ?thesis
    using b5 b239 unfolding m encl_def by simp
qed

lemma degrees_arctan_complement:
  assumes "\<bar>q\<bar> < 1"
  shows "degrees (arctan q) = 45 - degrees (arctan ((1 - q) / (1 + q)))"
proof -
  have "arctan 1 + arctan (- q) = arctan ((1 + - q) / (1 - 1 * - q))"
    using assms by (intro arctan_add) simp_all
  then have "arctan ((1 - q) / (1 + q)) = pi / 4 - arctan q"
    by (simp add: arctan_one arctan_minus)
  then show ?thesis
    by (simp add: degrees_def field_simps)
qed

lemma degrees_arctan_west:
  assumes "0 < x" "y < 0"
  shows "degrees (arctan (y / x)) = degrees (arctan (x / - y)) - 90"
proof -
  have "arctan (1 / (- y / x)) = sgn (- y / x) * pi / 2 - arctan (- y / x)"
    using assms by (intro arctan_inverse) simp
  moreover have "sgn (- y / x) = 1"
    using assms by (simp add: sgn_real_def divide_less_0_iff)
  ultimately have "arctan (x / - y) = pi / 2 + arctan (y / x)"
    using arctan_minus [of "y / x"] by simp
  then show ?thesis
    by (simp add: degrees_def field_simps)
qed

section \<open>The Green Bank Telescope, step by step\<close>

text \<open>Enclosures of every intermediate value of cells 14 to 18 on the input of the notebook.\<close>

lemma gbt_p0: "encl 5003332.0591529254350832 5003332.05915292543508321 (sqrt ((ecef_X gbt)\<^sup>2 + (ecef_Y gbt)\<^sup>2))"
  by (rule encl_sqrt [OF encl_refl]) (simp_all add: gbt_def grs80_num power_divide)

lemma gbt_p: "encl 5003332.0591529254350832 5003332.05915292543508321 (axis_p gbt)"
  unfolding axis_p_def by (rule gbt_p0)

lemma gbt_S0: "encl 40549479773219.943453415 40549479773219.9434534151 (sqrt (((ecef_X gbt)\<^sup>2 + (ecef_Y gbt)\<^sup>2) * (ell_b grs80)\<^sup>2 + (ecef_Z gbt * ell_a grs80)\<^sup>2))"
  by (rule encl_sqrt [OF encl_refl]) (simp_all add: gbt_def grs80_num power_divide)

lemma gbt_S: "encl 40549479773219.943453415 40549479773219.9434534151 (aux_S grs80 gbt)"
  unfolding aux_S_eq by (rule gbt_S0)

lemma gbt_sin_theta: "encl 0.620319832945094062667549 0.620319832945094062667551 (ecef_Z gbt * ell_a grs80 / aux_S grs80 gbt)"
  by (rule encl_div [OF encl_refl gbt_S]) (simp_all add: gbt_def grs80_num power_divide)

lemma gbt_sin_theta3: "encl 0.23869702165018892821507 0.238697021650188928215073 ((ecef_Z gbt * ell_a grs80 / aux_S grs80 gbt) ^ 3)"
  by (rule encl_power [OF gbt_sin_theta]) (simp_all add: gbt_def grs80_num power_divide)

lemma gbt_num_corr: "encl 10226.0935120307425347503 10226.0935120307425347506 ((ell_e_prime grs80)\<^sup>2 * ell_b grs80 * (ecef_Z gbt * ell_a grs80 / aux_S grs80 gbt) ^ 3)"
  by (rule encl_mult [OF encl_refl gbt_sin_theta3]) (simp_all add: gbt_def grs80_num power_divide)

lemma gbt_num0: "encl 3953955.51151203074253475 3953955.51151203074253476 (ecef_Z gbt + (ell_e_prime grs80)\<^sup>2 * ell_b grs80 * (ecef_Z gbt * ell_a grs80 / aux_S grs80 gbt) ^ 3)"
  by (rule encl_add [OF encl_refl gbt_num_corr]) (simp_all add: gbt_def grs80_num power_divide)

lemma gbt_num: "encl 3953955.51151203074253475 3953955.51151203074253476 (lat_num grs80 gbt)"
  unfolding lat_num_def by (rule gbt_num0)

lemma gbt_pb: "encl 31804942645432.9484772496 31804942645432.9484772497 (axis_p gbt * ell_b grs80)"
  by (rule encl_mult [OF gbt_p encl_refl]) (simp_all add: gbt_def grs80_num power_divide)

lemma gbt_cos_theta: "encl 0.784348968798308929574082 0.784348968798308929574087 (axis_p gbt * ell_b grs80 / aux_S grs80 gbt)"
  by (rule encl_div [OF gbt_pb gbt_S]) (simp_all add: gbt_def grs80_num power_divide)

lemma gbt_cos_theta3: "encl 0.482534077764307867432132 0.482534077764307867432143 ((axis_p gbt * ell_b grs80 / aux_S grs80 gbt) ^ 3)"
  by (rule encl_power [OF gbt_cos_theta]) (simp_all add: gbt_def grs80_num power_divide)

lemma gbt_den_corr: "encl 20603.082223272222720446 20603.0822232722227204466 ((ell_e grs80)\<^sup>2 * ell_a grs80 * (axis_p gbt * ell_b grs80 / aux_S grs80 gbt) ^ 3)"
  by (rule encl_mult [OF encl_refl gbt_cos_theta3]) (simp_all add: gbt_def grs80_num power_divide)

lemma gbt_den0: "encl 4982728.97692965321236275 4982728.97692965321236277 (axis_p gbt - (ell_e grs80)\<^sup>2 * ell_a grs80 * (axis_p gbt * ell_b grs80 / aux_S grs80 gbt) ^ 3)"
  by (rule encl_sub [OF gbt_p gbt_den_corr]) (simp_all add: gbt_def grs80_num power_divide)

lemma gbt_den: "encl 4982728.97692965321236275 4982728.97692965321236277 (lat_den grs80 gbt)"
  unfolding lat_den_def by (rule gbt_den0)

lemma gbt_q0: "encl 0.793532124628710902168204 0.79353212462871090216821 (lat_num grs80 gbt / lat_den grs80 gbt)"
  by (rule encl_div [OF gbt_num gbt_den]) (simp_all add: gbt_def grs80_num power_divide)

lemma gbt_q: "encl 0.793532124628710902168204 0.79353212462871090216821 (lat_q grs80 gbt)"
  unfolding lat_q_def by (rule gbt_q0)

lemma gbt_q2: "encl 0.629693232817755971554259 0.62969323281775597155427 ((lat_q grs80 gbt)\<^sup>2)"
  by (rule encl_power [OF gbt_q]) (simp_all add: gbt_def grs80_num power_divide)

lemma gbt_r2: "encl 1.62969323281775597155425 1.62969323281775597155427 (1 + (lat_q grs80 gbt)\<^sup>2)"
  by (rule encl_add [OF encl_refl gbt_q2]) (simp_all add: gbt_def grs80_num power_divide)

lemma gbt_r: "encl 1.2765943885266596187155 1.27659438852665961871552 (sqrt (1 + (lat_q grs80 gbt)\<^sup>2))"
  by (rule encl_sqrt [OF gbt_r2]) (simp_all add: gbt_def grs80_num power_divide)

lemma gbt_sin_phi: "encl 0.621600824631965128828594 0.621600824631965128828609 (lat_q grs80 gbt / sqrt (1 + (lat_q grs80 gbt)\<^sup>2))"
  by (rule encl_div [OF gbt_q gbt_r]) (simp_all add: gbt_def grs80_num power_divide)

lemma gbt_sin_phi2: "encl 0.38638758518313906603762 0.386387585183139066037639 ((lat_q grs80 gbt / sqrt (1 + (lat_q grs80 gbt)\<^sup>2))\<^sup>2)"
  by (rule encl_power [OF gbt_sin_phi]) (simp_all add: gbt_def grs80_num power_divide)

lemma gbt_e2s2: "encl 0.002586625331347898004697 0.002586625331347898004698 ((ell_e grs80)\<^sup>2 * (lat_q grs80 gbt / sqrt (1 + (lat_q grs80 gbt)\<^sup>2))\<^sup>2)"
  by (rule encl_mult [OF encl_refl gbt_sin_phi2]) (simp_all add: gbt_def grs80_num power_divide)

lemma gbt_rad: "encl 0.997413374668652101995302 0.997413374668652101995303 (1 - (ell_e grs80)\<^sup>2 * (lat_q grs80 gbt / sqrt (1 + (lat_q grs80 gbt)\<^sup>2))\<^sup>2)"
  by (rule encl_sub [OF encl_refl gbt_e2s2]) (simp_all add: gbt_def grs80_num power_divide)

lemma gbt_v: "encl 0.998705849922114004833973 0.998705849922114004833975 (sqrt (1 - (ell_e grs80)\<^sup>2 * (lat_q grs80 gbt / sqrt (1 + (lat_q grs80 gbt)\<^sup>2))\<^sup>2))"
  by (rule encl_sqrt [OF gbt_rad]) (simp_all add: gbt_def grs80_num power_divide)

lemma gbt_N0: "encl 6386401.96259730657669337 6386401.96259730657669339 (ell_a grs80 / sqrt (1 - (ell_e grs80)\<^sup>2 * (lat_q grs80 gbt / sqrt (1 + (lat_q grs80 gbt)\<^sup>2))\<^sup>2))"
  by (rule encl_div [OF encl_refl gbt_v]) (simp_all add: gbt_def grs80_num power_divide)

lemma gbt_N: "encl 6386401.96259730657669337 6386401.96259730657669339 (curv_N grs80 (lat_q grs80 gbt))"
  unfolding curv_N_def by (rule gbt_N0)

lemma gbt_pr: "encl 6387225.63065016159879018 6387225.63065016159879031 (axis_p gbt * sqrt (1 + (lat_q grs80 gbt)\<^sup>2))"
  by (rule encl_mult [OF gbt_p gbt_r]) (simp_all add: gbt_def grs80_num power_divide)

lemma gbt_h0: "encl 823.66805285502209679 823.66805285502209694 (axis_p gbt * sqrt (1 + (lat_q grs80 gbt)\<^sup>2) - curv_N grs80 (lat_q grs80 gbt))"
  by (rule encl_sub [OF gbt_pr gbt_N]) (simp_all add: gbt_def grs80_num power_divide)

lemma gbt_h: "encl 823.66805285502209679 823.66805285502209694 (alt_h grs80 gbt)"
  unfolding alt_h_def by (rule gbt_h0)



lemma gbt_cos_phi: "encl 0.783334165485497596499357 0.78333416548549759649937 (1 / sqrt (1 + (lat_q grs80 gbt)\<^sup>2))"
  by (rule encl_div [OF encl_refl gbt_r]) (simp_all add: gbt_def grs80_num power_divide)

lemma gbt_cos_lam: "encl 0.176400302551460917733884 0.176400302551460917733886 (ecef_X gbt / axis_p gbt)"
  by (rule encl_div [OF encl_refl gbt_p]) (simp_all add: gbt_def grs80_num power_divide)

lemma gbt_sin_lam: "encl (- 0.984318512098473667041673) (- 0.98431851209847366704167) (ecef_Y gbt / axis_p gbt)"
  by (rule encl_div_neg [OF encl_refl gbt_p]) (simp_all add: gbt_def grs80_num power_divide)

lemma gbt_cN: "encl 6343648.96088066400020131 6343648.96088066400020134 ((ell_b grs80)\<^sup>2 / (ell_a grs80)\<^sup>2 * curv_N grs80 (lat_q grs80 gbt))"
  by (rule encl_mult [OF encl_refl gbt_N]) (simp_all add: gbt_def grs80_num power_divide)






lemma gbt_h_off_5: "encl 823.71805285502209679 823.71805285502209694 (alt_h grs80 gbt + 0.05)"
  by (rule encl_add [OF gbt_h encl_refl]) (simp_all add: gbt_def grs80_num power_divide)

lemma gbt_Nh_5: "encl 6387225.68065016159879016 6387225.68065016159879033 (curv_N grs80 (lat_q grs80 gbt) + (alt_h grs80 gbt + 0.05))"
  by (rule encl_add [OF gbt_N gbt_h_off_5]) (simp_all add: gbt_def grs80_num power_divide)

lemma gbt_horiz_5: "encl 5003332.09831963370935797 5003332.0983196337093582 ((curv_N grs80 (lat_q grs80 gbt) + (alt_h grs80 gbt + 0.05)) * (1 / sqrt (1 + (lat_q grs80 gbt)\<^sup>2)))"
  by (rule encl_mult [OF gbt_Nh_5 gbt_cos_phi]) (simp_all add: gbt_def grs80_num power_divide)

lemma gbt_X_new_5: "encl 882589.29590901918952687 882589.295909019189526922 ((curv_N grs80 (lat_q grs80 gbt) + (alt_h grs80 gbt + 0.05)) * (1 / sqrt (1 + (lat_q grs80 gbt)\<^sup>2)) * (ecef_X gbt / axis_p gbt))"
  by (rule encl_mult [OF gbt_horiz_5 gbt_cos_lam]) (simp_all add: gbt_def grs80_num power_divide)

lemma gbt_Y_new_5: "encl (- 4924872.40655251601232935) (- 4924872.4065525160123291) ((curv_N grs80 (lat_q grs80 gbt) + (alt_h grs80 gbt + 0.05)) * (1 / sqrt (1 + (lat_q grs80 gbt)\<^sup>2)) * (ecef_Y gbt / axis_p gbt))"
  by (rule encl_mult_neg [OF gbt_horiz_5 gbt_sin_lam]) (simp_all add: gbt_def grs80_num power_divide)

lemma gbt_vert_5: "encl 6344472.6789335190222981 6344472.67893351902229828 ((ell_b grs80)\<^sup>2 / (ell_a grs80)\<^sup>2 * curv_N grs80 (lat_q grs80 gbt) + (alt_h grs80 gbt + 0.05))"
  by (rule encl_add [OF gbt_cN gbt_h_off_5]) (simp_all add: gbt_def grs80_num power_divide)

lemma gbt_Z_new_5: "encl 3943729.44908004835937188 3943729.4490800483593721 (((ell_b grs80)\<^sup>2 / (ell_a grs80)\<^sup>2 * curv_N grs80 (lat_q grs80 gbt) + (alt_h grs80 gbt + 0.05)) * (lat_q grs80 gbt / sqrt (1 + (lat_q grs80 gbt)\<^sup>2)))"
  by (rule encl_mult [OF gbt_vert_5 gbt_sin_phi]) (simp_all add: gbt_def grs80_num power_divide)

lemma gbt_q_coarse: "encl 0.793532124628 0.793532124629 (lat_q grs80 gbt)"
  by (rule encl_weaken [OF gbt_q]) (simp_all add: gbt_def grs80_num power_divide)

lemma gbt_u_num: "encl 0.206467875371 0.206467875372 (1 - lat_q grs80 gbt)"
  by (rule encl_sub [OF encl_refl gbt_q_coarse]) (simp_all add: gbt_def grs80_num power_divide)

lemma gbt_u_den: "encl 1.79353212462 1.79353212463 (1 + lat_q grs80 gbt)"
  by (rule encl_add [OF encl_refl gbt_q_coarse]) (simp_all add: gbt_def grs80_num power_divide)

lemma gbt_u: "encl 0.11511802467 0.115118024672 ((1 - lat_q grs80 gbt) / (1 + lat_q grs80 gbt))"
  by (rule encl_div [OF gbt_u_num gbt_u_den]) (simp_all add: gbt_def grs80_num power_divide)

lemma gbt_arctan_u: "encl 0.114613508983 0.11461350938 (arctan ((1 - lat_q grs80 gbt) / (1 + lat_q grs80 gbt)))"
  by (rule encl_arctan [OF gbt_u, where n = 2]) (simp_all add: gbt_def grs80_num power_divide arctan_sum_eval)

lemma gbt_deg_per_rad: "encl 57.2957795128 57.2957795148 (180 / pi)"
  by (rule encl_div [OF encl_refl encl_pi]) (simp_all add: gbt_def grs80_num power_divide)

lemma gbt_deg_u0: "encl 6.56687033987 6.56687036286 (arctan ((1 - lat_q grs80 gbt) / (1 + lat_q grs80 gbt)) * (180 / pi))"
  by (rule encl_mult [OF gbt_arctan_u gbt_deg_per_rad]) (simp_all add: gbt_def grs80_num power_divide)

lemma gbt_deg_u: "encl 6.56687033987 6.56687036286 (degrees (arctan ((1 - lat_q grs80 gbt) / (1 + lat_q grs80 gbt))))"
  unfolding degrees_def by (rule gbt_deg_u0)

lemma gbt_phi0: "encl 38.4331296371 38.4331296602 (45 - degrees (arctan ((1 - lat_q grs80 gbt) / (1 + lat_q grs80 gbt))))"
  by (rule encl_sub [OF encl_refl gbt_deg_u]) (simp_all add: gbt_def grs80_num power_divide)

lemma gbt_t: "encl 0.17921059127 0.179210591271 (ecef_X gbt / - ecef_Y gbt)"
  by (rule encl_div [OF encl_refl encl_refl]) (simp_all add: gbt_def grs80_num power_divide)

lemma gbt_arctan_t: "encl 0.177328177912 0.177328199099 (arctan (ecef_X gbt / - ecef_Y gbt))"
  by (rule encl_arctan [OF gbt_t, where n = 2]) (simp_all add: gbt_def grs80_num power_divide arctan_sum_eval)

lemma gbt_deg_t0: "encl 10.160156183 10.1601573974 (arctan (ecef_X gbt / - ecef_Y gbt) * (180 / pi))"
  by (rule encl_mult [OF gbt_arctan_t gbt_deg_per_rad]) (simp_all add: gbt_def grs80_num power_divide)

lemma gbt_deg_t: "encl 10.160156183 10.1601573974 (degrees (arctan (ecef_X gbt / - ecef_Y gbt)))"
  unfolding degrees_def by (rule gbt_deg_t0)

lemma gbt_lam0: "encl (- 79.839843817) (- 79.8398426026) (degrees (arctan (ecef_X gbt / - ecef_Y gbt)) - 90)"
  by (rule encl_sub [OF gbt_deg_t encl_refl]) (simp_all add: gbt_def grs80_num power_divide)

lemma gbt_defined: "ecef_X gbt \<noteq> 0" "0 < ecef_X gbt" "lat_den grs80 gbt \<noteq> 0"
  using encl_pos [OF gbt_den] by (simp_all add: gbt_def)

lemma gbt_phi: "encl 38.4331296371 38.4331296602 (degrees (arctan (lat_q grs80 gbt)))"
proof -
  have "\<bar>lat_q grs80 gbt\<bar> < 1"
    using gbt_q by (simp add: encl_def)
  then show ?thesis
    using gbt_phi0 by (simp add: degrees_arctan_complement)
qed

lemma gbt_lam: "encl (- 79.839843817) (- 79.8398426026) (degrees (arctan (ecef_Y gbt / ecef_X gbt)))"
proof -
  have "degrees (arctan (ecef_Y gbt / ecef_X gbt)) = degrees (arctan (ecef_X gbt / - ecef_Y gbt)) - 90"
    by (rule degrees_arctan_west) (simp_all add: gbt_def)
  then show ?thesis
    using gbt_lam0 by simp
qed

lemmas gbt_offset = offsetEcef_closed [OF grs80_pos gbt_defined(2,3)]

lemma gbt_offset_5:
  "offsetEcef grs80 gbt 0.05 = Some (the (offsetEcef grs80 gbt 0.05))"
  "encl 882589.29590901918952687 882589.295909019189526922 (ecef_X (the (offsetEcef grs80 gbt 0.05)))"
  "encl (- 4924872.40655251601232935) (- 4924872.4065525160123291) (ecef_Y (the (offsetEcef grs80 gbt 0.05)))"
  "encl 3943729.44908004835937188 3943729.4490800483593721 (ecef_Z (the (offsetEcef grs80 gbt 0.05)))"
  unfolding gbt_offset option.sel EcefPoint.simps
  by (rule refl, rule gbt_X_new_5, rule gbt_Y_new_5, rule gbt_Z_new_5)


lemma diff_sel:
  "ecef_X (diff P Q) = ecef_X P - ecef_X Q"
  "ecef_Y (diff P Q) = ecef_Y P - ecef_Y Q"
  "ecef_Z (diff P Q) = ecef_Z P - ecef_Z Q"
  by (simp_all add: diff_def)

lemma gbt_sel:
  "ecef_X gbt = 882589.289" "ecef_Y gbt = - 4924872.368" "ecef_Z gbt = 3943729.418"
  by (simp_all add: gbt_def)


section \<open>A point at satellite distance, step by step\<close>

lemma sat_p0: "encl 17326615.3648079808697526 17326615.3648079808697527 (sqrt ((ecef_X sat)\<^sup>2 + (ecef_Y sat)\<^sup>2))"
  by (rule encl_sqrt [OF encl_refl]) (simp_all add: sat_def grs80_num power_divide)

lemma sat_p: "encl 17326615.3648079808697526 17326615.3648079808697527 (axis_p sat)"
  unfolding axis_p_def by (rule sat_p0)

lemma sat_S0: "encl 169209638924235.508630447 169209638924235.508630448 (sqrt (((ecef_X sat)\<^sup>2 + (ecef_Y sat)\<^sup>2) * (ell_b grs80)\<^sup>2 + (ecef_Z sat * ell_a grs80)\<^sup>2))"
  by (rule encl_sqrt [OF encl_refl]) (simp_all add: sat_def grs80_num power_divide)

lemma sat_S: "encl 169209638924235.508630447 169209638924235.508630448 (aux_S grs80 sat)"
  unfolding aux_S_eq by (rule sat_S0)

lemma sat_sin_theta: "encl 0.759151074351719969220589 0.759151074351719969220594 (ecef_Z sat * ell_a grs80 / aux_S grs80 sat)"
  by (rule encl_div [OF encl_refl sat_S]) (simp_all add: sat_def grs80_num power_divide)

lemma sat_sin_theta3: "encl 0.437506624163305459456693 0.437506624163305459456702 ((ecef_Z sat * ell_a grs80 / aux_S grs80 sat) ^ 3)"
  by (rule encl_power [OF sat_sin_theta]) (simp_all add: sat_def grs80_num power_divide)

lemma sat_num_corr: "encl 18743.3576669569194891238 18743.3576669569194891242 ((ell_e_prime grs80)\<^sup>2 * ell_b grs80 * (ecef_Z sat * ell_a grs80 / aux_S grs80 sat) ^ 3)"
  by (rule encl_mult [OF encl_refl sat_sin_theta3]) (simp_all add: sat_def grs80_num power_divide)

lemma sat_num0: "encl 20158743.3576669569194891 20158743.3576669569194892 (ecef_Z sat + (ell_e_prime grs80)\<^sup>2 * ell_b grs80 * (ecef_Z sat * ell_a grs80 / aux_S grs80 sat) ^ 3)"
  by (rule encl_add [OF encl_refl sat_num_corr]) (simp_all add: sat_def grs80_num power_divide)

lemma sat_num: "encl 20158743.3576669569194891 20158743.3576669569194892 (lat_num grs80 sat)"
  unfolding lat_num_def by (rule sat_num0)

lemma sat_pb: "encl 110141002316462.832641881 110141002316462.832641883 (axis_p sat * ell_b grs80)"
  by (rule encl_mult [OF sat_p encl_refl]) (simp_all add: sat_def grs80_num power_divide)

lemma sat_cos_theta: "encl 0.650914469274289015719307 0.650914469274289015719324 (axis_p sat * ell_b grs80 / aux_S grs80 sat)"
  by (rule encl_div [OF sat_pb sat_S]) (simp_all add: sat_def grs80_num power_divide)

lemma sat_cos_theta3: "encl 0.275785721265294521382321 0.275785721265294521382344 ((axis_p sat * ell_b grs80 / aux_S grs80 sat) ^ 3)"
  by (rule encl_power [OF sat_cos_theta]) (simp_all add: sat_def grs80_num power_divide)

lemma sat_den_corr: "encl 11775.4085215276109596369 11775.4085215276109596379 ((ell_e grs80)\<^sup>2 * ell_a grs80 * (axis_p sat * ell_b grs80 / aux_S grs80 sat) ^ 3)"
  by (rule encl_mult [OF encl_refl sat_cos_theta3]) (simp_all add: sat_def grs80_num power_divide)

lemma sat_den0: "encl 17314839.9562864532587929 17314839.9562864532587931 (axis_p sat - (ell_e grs80)\<^sup>2 * ell_a grs80 * (axis_p sat * ell_b grs80 / aux_S grs80 sat) ^ 3)"
  by (rule encl_sub [OF sat_p sat_den_corr]) (simp_all add: sat_def grs80_num power_divide)

lemma sat_den: "encl 17314839.9562864532587929 17314839.9562864532587931 (lat_den grs80 sat)"
  unfolding lat_den_def by (rule sat_den0)

lemma sat_q0: "encl 1.1642465889699416572557 1.16424658896994165725573 (lat_num grs80 sat / lat_den grs80 sat)"
  by (rule encl_div [OF sat_num sat_den]) (simp_all add: sat_def grs80_num power_divide)

lemma sat_q: "encl 1.1642465889699416572557 1.16424658896994165725573 (lat_q grs80 sat)"
  unfolding lat_q_def by (rule sat_q0)

lemma sat_q2: "encl 1.35547011992814427497881 1.35547011992814427497889 ((lat_q grs80 sat)\<^sup>2)"
  by (rule encl_power [OF sat_q]) (simp_all add: sat_def grs80_num power_divide)

lemma sat_r2: "encl 2.35547011992814427497881 2.35547011992814427497889 (1 + (lat_q grs80 sat)\<^sup>2)"
  by (rule encl_add [OF encl_refl sat_q2]) (simp_all add: sat_def grs80_num power_divide)

lemma sat_r: "encl 1.53475409102831332865885 1.53475409102831332865889 (sqrt (1 + (lat_q grs80 sat)\<^sup>2))"
  by (rule encl_sqrt [OF sat_r2]) (simp_all add: sat_def grs80_num power_divide)

lemma sat_sin_phi: "encl 0.758588360034847755751136 0.758588360034847755751176 (lat_q grs80 sat / sqrt (1 + (lat_q grs80 sat)\<^sup>2))"
  by (rule encl_div [OF sat_q sat_r]) (simp_all add: sat_def grs80_num power_divide)

lemma sat_sin_phi2: "encl 0.575456299980359803771084 0.575456299980359803771145 ((lat_q grs80 sat / sqrt (1 + (lat_q grs80 sat)\<^sup>2))\<^sup>2)"
  by (rule encl_power [OF sat_sin_phi]) (simp_all add: sat_def grs80_num power_divide)

lemma sat_e2s2: "encl 0.003852323158642435947142 0.003852323158642435947143 ((ell_e grs80)\<^sup>2 * (lat_q grs80 sat / sqrt (1 + (lat_q grs80 sat)\<^sup>2))\<^sup>2)"
  by (rule encl_mult [OF encl_refl sat_sin_phi2]) (simp_all add: sat_def grs80_num power_divide)

lemma sat_rad: "encl 0.996147676841357564052857 0.996147676841357564052858 (1 - (ell_e grs80)\<^sup>2 * (lat_q grs80 sat / sqrt (1 + (lat_q grs80 sat)\<^sup>2))\<^sup>2)"
  by (rule encl_sub [OF encl_refl sat_e2s2]) (simp_all add: sat_def grs80_num power_divide)

lemma sat_v: "encl 0.998071979789713144741643 0.998071979789713144741644 (sqrt (1 - (ell_e grs80)\<^sup>2 * (lat_q grs80 sat / sqrt (1 + (lat_q grs80 sat)\<^sup>2))\<^sup>2))"
  by (rule encl_sqrt [OF sat_rad]) (simp_all add: sat_def grs80_num power_divide)

lemma sat_N0: "encl 6390457.93204597257824106 6390457.93204597257824108 (ell_a grs80 / sqrt (1 - (ell_e grs80)\<^sup>2 * (lat_q grs80 sat / sqrt (1 + (lat_q grs80 sat)\<^sup>2))\<^sup>2))"
  by (rule encl_div [OF encl_refl sat_v]) (simp_all add: sat_def grs80_num power_divide)

lemma sat_N: "encl 6390457.93204597257824106 6390457.93204597257824108 (curv_N grs80 (lat_q grs80 sat))"
  unfolding curv_N_def by (rule sat_N0)

lemma sat_pr: "encl 26592093.8148130802246718 26592093.8148130802246727 (axis_p sat * sqrt (1 + (lat_q grs80 sat)\<^sup>2))"
  by (rule encl_mult [OF sat_p sat_r]) (simp_all add: sat_def grs80_num power_divide)

lemma sat_h0: "encl 20201635.8827671076464307 20201635.8827671076464317 (axis_p sat * sqrt (1 + (lat_q grs80 sat)\<^sup>2) - curv_N grs80 (lat_q grs80 sat))"
  by (rule encl_sub [OF sat_pr sat_N]) (simp_all add: sat_def grs80_num power_divide)

lemma sat_h: "encl 20201635.8827671076464307 20201635.8827671076464317 (alt_h grs80 sat)"
  unfolding alt_h_def by (rule sat_h0)

lemma sat_h_off_0: "encl 20201635.8827671076464307 20201635.8827671076464317 (alt_h grs80 sat + 0)"
  by (rule encl_add [OF sat_h encl_refl]) (simp_all add: sat_def grs80_num power_divide)

lemma sat_Nh_0: "encl 26592093.8148130802246717 26592093.8148130802246728 (curv_N grs80 (lat_q grs80 sat) + (alt_h grs80 sat + 0))"
  by (rule encl_add [OF sat_N sat_h_off_0]) (simp_all add: sat_def grs80_num power_divide)

lemma sat_cos_phi: "encl 0.65157018042543981681902 0.651570180425439816819038 (1 / sqrt (1 + (lat_q grs80 sat)\<^sup>2))"
  by (rule encl_div [OF encl_refl sat_r]) (simp_all add: sat_def grs80_num power_divide)

lemma sat_cos_lam: "encl 0.900348952841943820852156 0.900348952841943820852162 (ecef_X sat / axis_p sat)"
  by (rule encl_div [OF encl_refl sat_p]) (simp_all add: sat_def grs80_num power_divide)

lemma sat_sin_lam: "encl 0.435168660540272846745208 0.435168660540272846745212 (ecef_Y sat / axis_p sat)"
  by (rule encl_div [OF encl_refl sat_p]) (simp_all add: sat_def grs80_num power_divide)


lemma sat_horiz_0: "encl 17326615.364807980869752 17326615.3648079808697533 ((curv_N grs80 (lat_q grs80 sat) + (alt_h grs80 sat + 0)) * (1 / sqrt (1 + (lat_q grs80 sat)\<^sup>2)))"
  by (rule encl_mult [OF sat_Nh_0 sat_cos_phi]) (simp_all add: sat_def grs80_num power_divide)

lemma sat_X_new_0: "encl 15599999.9999999999999993 15600000.0000000000000007 ((curv_N grs80 (lat_q grs80 sat) + (alt_h grs80 sat + 0)) * (1 / sqrt (1 + (lat_q grs80 sat)\<^sup>2)) * (ecef_X sat / axis_p sat))"
  by (rule encl_mult [OF sat_horiz_0 sat_cos_lam]) (simp_all add: sat_def grs80_num power_divide)

lemma sat_Y_new_0: "encl 7539999.99999999999999968 7540000.00000000000000032 ((curv_N grs80 (lat_q grs80 sat) + (alt_h grs80 sat + 0)) * (1 / sqrt (1 + (lat_q grs80 sat)\<^sup>2)) * (ecef_Y sat / axis_p sat))"
  by (rule encl_mult [OF sat_horiz_0 sat_sin_lam]) (simp_all add: sat_def grs80_num power_divide)






section \<open>The other listed stations, step by step\<close>











































































































































section \<open>The derived constants: what is checked\<close>








section \<open>Longitude\<close>

text \<open>
  C2. The claim asks for the two-argument arctangent: a point with \<open>X < 0\<close> and \<open>Y > 0\<close> has
  a longitude between 90 and 180 degrees. Cell 14 takes \<^verbatim>\<open>np.arctan(Y/X)\<close>: the point
  \<open>east\<close> lies at longitude 135 and the notebook answers -45.
\<close>

theorem longitude_wrong_quadrant:
  "\<exists>lla N. ecefToLla grs80 east = Some (lla, N) \<and> lla_lam lla = - 45"
proof -
  have "(ell_e grs80)\<^sup>2 * ell_a grs80 < 50000"
    by (simp add: grs80_num)
  also have "50000 < axis_p east"
    unfolding axis_p_def by (rule real_less_rsqrt) (simp add: east_def)
  finally have "0 < lat_den grs80 east"
    by (rule lat_den_pos [OF grs80_pos(1,2)])
  then have den: "lat_den grs80 east \<noteq> 0"
    by simp
  have x: "ecef_X east \<noteq> 0"
    by (simp add: east_def)
  have "degrees (arctan (ecef_Y east / ecef_X east)) = - 45"
    by (simp add: east_def arctan_minus arctan_one degrees_def)
  then show ?thesis
    by (simp add: ecefToLla_closed [OF grs80_pos x den])
qed

section \<open>The polar axis\<close>




section \<open>The values of the notebook\<close>

text \<open>
  C4. On the input of the notebook, with the GRS80 constants, the conversion yields latitude
  38.43312964 degrees, longitude -79.83984263 degrees and altitude 823.66805 m, each within
  \<open>10\<^sup>-\<^sup>4\<close>.
\<close>

theorem gbt_known_values:
  "\<exists>lla N. ecefToLla grs80 gbt = Some (lla, N)
     \<and> \<bar>lla_phi lla - 38.43312964\<bar> \<le> 1 / 10 ^ 4
     \<and> \<bar>lla_lam lla - (- 79.83984263)\<bar> \<le> 1 / 10 ^ 4
     \<and> \<bar>lla_h lla - 823.66805\<bar> \<le> 1 / 10 ^ 4"
proof -
  have "\<bar>degrees (arctan (lat_q grs80 gbt)) - 38.43312964\<bar> \<le> 1 / 10 ^ 4"
    by (rule encl_abs [OF gbt_phi]) simp_all
  moreover have "\<bar>degrees (arctan (ecef_Y gbt / ecef_X gbt)) - (- 79.83984263)\<bar> \<le> 1 / 10 ^ 4"
    by (rule encl_abs [OF gbt_lam]) simp_all
  moreover have "\<bar>alt_h grs80 gbt - 823.66805\<bar> \<le> 1 / 10 ^ 4"
    by (rule encl_abs [OF gbt_h]) simp_all
  ultimately show ?thesis
    by (simp add: ecefToLla_closed [OF grs80_pos gbt_defined(1,3)] alt_h_def)
qed

text \<open>
  C5, as the notebook has it. With an offset of 0.05 m the way back yields
  \<open>X = 882589.29591\<close>, \<open>Y = -4924872.40655\<close>, \<open>Z = 3943729.44908\<close>, each within \<open>10\<^sup>-\<^sup>3\<close> m, and
  the difference to the input is \<open>(0.00691, -0.03855, 0.03108)\<close> m, each within \<open>10\<^sup>-\<^sup>4\<close> m.
\<close>

theorem gbt_offset_values:
  "\<exists>P. offsetEcef grs80 gbt 0.05 = Some P
     \<and> \<bar>ecef_X P - 882589.29591\<bar> \<le> 1 / 10 ^ 3
     \<and> \<bar>ecef_Y P - (- 4924872.40655)\<bar> \<le> 1 / 10 ^ 3
     \<and> \<bar>ecef_Z P - 3943729.44908\<bar> \<le> 1 / 10 ^ 3
     \<and> \<bar>ecef_X (diff P gbt) - 0.00691\<bar> \<le> 1 / 10 ^ 4
     \<and> \<bar>ecef_Y (diff P gbt) - (- 0.03855)\<bar> \<le> 1 / 10 ^ 4
     \<and> \<bar>ecef_Z (diff P gbt) - 0.03108\<bar> \<le> 1 / 10 ^ 4"
proof -
  let ?P = "the (offsetEcef grs80 gbt 0.05)"
  note P = gbt_offset_5(1) and X = gbt_offset_5(2) and Y = gbt_offset_5(3) and Z = gbt_offset_5(4)
  have x: "\<bar>ecef_X ?P - 882589.29591\<bar> \<le> 1 / 10 ^ 3"
    by (rule encl_abs [OF X]) simp_all
  have y: "\<bar>ecef_Y ?P - (- 4924872.40655)\<bar> \<le> 1 / 10 ^ 3"
    by (rule encl_abs [OF Y]) simp_all
  have z: "\<bar>ecef_Z ?P - 3943729.44908\<bar> \<le> 1 / 10 ^ 3"
    by (rule encl_abs [OF Z]) simp_all
  have dx: "\<bar>ecef_X (diff ?P gbt) - 0.00691\<bar> \<le> 1 / 10 ^ 4"
    unfolding diff_sel gbt_sel by (rule encl_abs_diff [OF X]) simp_all
  have dy: "\<bar>ecef_Y (diff ?P gbt) - (- 0.03855)\<bar> \<le> 1 / 10 ^ 4"
    unfolding diff_sel gbt_sel by (rule encl_abs_diff [OF Y]) simp_all
  have dz: "\<bar>ecef_Z (diff ?P gbt) - 0.03108\<bar> \<le> 1 / 10 ^ 4"
    unfolding diff_sel gbt_sel by (rule encl_abs_diff [OF Z]) simp_all
  show ?thesis
    by (rule exI [of _ ?P]) (intro conjI P x y z dx dy dz)
qed

text \<open>
  C5 as it was claimed fails: the difference in \<open>X\<close> is below one centimetre, more than ten
  metres away from the claimed 10.36 m.
\<close>

theorem gbt_offset_difference_cex:
  "offsetEcef grs80 gbt 0.05 \<noteq> None
   \<and> \<bar>ecef_X (diff (the (offsetEcef grs80 gbt 0.05)) gbt) - 0\<bar> < 1 / 100
   \<and> 10 < \<bar>ecef_X (diff (the (offsetEcef grs80 gbt 0.05)) gbt) - 10.36\<bar>"
proof -
  let ?P = "the (offsetEcef grs80 gbt 0.05)"
  note X = gbt_offset_5(2)
  have d: "encl 0.006 0.007 (ecef_X (diff ?P gbt))"
    unfolding diff_sel gbt_sel by (rule encl_sub [OF X encl_refl]) simp_all
  have a: "offsetEcef grs80 gbt 0.05 \<noteq> None"
    using gbt_offset_5(1) by (rule ssubst) simp
  have b: "\<bar>ecef_X (diff ?P gbt) - 0\<bar> < 1 / 100"
    by (rule encl_abs_small [OF d]) simp_all
  have c: "10 < \<bar>ecef_X (diff ?P gbt) - 10.36\<bar>"
    by (rule encl_abs_far_below [OF d]) simp_all
  show ?thesis
    by (intro conjI a b c)
qed

section \<open>There and back\<close>



end
